theory Spec2Isabelle
  imports Main "HOL-Library.Word" "HOL-Library.Sublist" "HOL-Library.Finite_Map"
begin

unbundle bit_operations_syntax

section \<open>Digests: \<^verbatim>\<open>hashObject\<close>\<close>

text \<open>
  Go strings and file contents are byte sequences; they are modelled as \<^typ>\<open>string\<close>
  (a list of 8-bit characters). \<^verbatim>\<open>crypto/sha1\<close> and \<^verbatim>\<open>encoding/hex\<close> belong to the Go
  standard library; they are modelled by the functions they implement: SHA-1 as
  specified in FIPS 180-4 on 32-bit words, and the lowercase hexadecimal encoding of a
  byte sequence.
\<close>

type_synonym byte = "8 word"
type_synonym u32 = "32 word"

definition rotl :: "nat \<Rightarrow> u32 \<Rightarrow> u32" where
  "rotl n x = push_bit n x OR drop_bit (32 - n) x"

text \<open>Padding: the byte 0x80, zero bytes up to 56 modulo 64, and the length in bits as a
  64-bit big-endian integer (a \<^verbatim>\<open>uint64\<close>, so it wraps).\<close>

definition be_bytes64 :: "64 word \<Rightarrow> byte list" where
  "be_bytes64 n = map (\<lambda>i. ucast (drop_bit (8 * (7 - i)) n)) [0..<8]"

definition sha1_pad :: "byte list \<Rightarrow> byte list" where
  "sha1_pad m =
     m @ [0x80] @ replicate ((119 - length m mod 64) mod 64) 0
       @ be_bytes64 (push_bit 3 (of_nat (length m)))"

fun be_words :: "byte list \<Rightarrow> u32 list" where
  "be_words (a # b # c # d # bs) =
     (push_bit 24 (ucast a) OR push_bit 16 (ucast b) OR push_bit 8 (ucast c) OR ucast d)
       # be_words bs"
| "be_words _ = []"

fun chunks :: "nat \<Rightarrow> 'a list \<Rightarrow> 'a list list" where
  "chunks n [] = []"
| "chunks n (x # xs) =
     (if n = 0 then [] else take n (x # xs) # chunks n (drop n (x # xs)))"

text \<open>The message schedule: the 16 words of a block extended to 80.\<close>

fun expand :: "nat \<Rightarrow> u32 list \<Rightarrow> u32 list" where
  "expand 0 w = w"
| "expand (Suc k) w =
     (let i = length w in
      expand k (w @ [rotl 1 (w ! (i - 3) XOR w ! (i - 8) XOR w ! (i - 14) XOR w ! (i - 16))]))"

type_synonym sha1_state = "u32 \<times> u32 \<times> u32 \<times> u32 \<times> u32"

definition sha1_f :: "nat \<Rightarrow> u32 \<Rightarrow> u32 \<Rightarrow> u32 \<Rightarrow> u32" where
  "sha1_f t b c d =
     (if t < 20 then (b AND c) OR (NOT b AND d)
      else if t < 40 then b XOR c XOR d
      else if t < 60 then (b AND c) OR (b AND d) OR (c AND d)
      else b XOR c XOR d)"

definition sha1_k :: "nat \<Rightarrow> u32" where
  "sha1_k t =
     (if t < 20 then 0x5A827999
      else if t < 40 then 0x6ED9EBA1
      else if t < 60 then 0x8F1BBCDC
      else 0xCA62C1D6)"

fun sha1_rounds :: "nat \<Rightarrow> u32 list \<Rightarrow> sha1_state \<Rightarrow> sha1_state" where
  "sha1_rounds t [] s = s"
| "sha1_rounds t (w # ws) (a, b, c, d, e) =
     sha1_rounds (Suc t) ws
       (rotl 5 a + sha1_f t b c d + e + w + sha1_k t, a, rotl 30 b, c, d)"

definition sha1_block :: "sha1_state \<Rightarrow> byte list \<Rightarrow> sha1_state" where
  "sha1_block h blk =
     (case h of (h0, h1, h2, h3, h4) \<Rightarrow>
        (case sha1_rounds 0 (expand 64 (be_words blk)) h of
           (a, b, c, d, e) \<Rightarrow> (h0 + a, h1 + b, h2 + c, h3 + d, h4 + e)))"

definition sha1_init :: sha1_state where
  "sha1_init = (0x67452301, 0xEFCDAB89, 0x98BADCFE, 0x10325476, 0xC3D2E1F0)"

definition be_bytes32 :: "u32 \<Rightarrow> byte list" where
  "be_bytes32 x = [ucast (drop_bit 24 x), ucast (drop_bit 16 x), ucast (drop_bit 8 x), ucast x]"

definition sha1_Sum :: "byte list \<Rightarrow> byte list" where
  "sha1_Sum m =
     (case foldl sha1_block sha1_init (chunks 64 (sha1_pad m)) of
        (h0, h1, h2, h3, h4) \<Rightarrow>
          be_bytes32 h0 @ be_bytes32 h1 @ be_bytes32 h2 @ be_bytes32 h3 @ be_bytes32 h4)"

text \<open>\<^verbatim>\<open>hex.EncodeToString\<close>: two characters of \<^verbatim>\<open>0123456789abcdef\<close> for each byte.\<close>

definition hextable :: string where
  "hextable = ''0123456789abcdef''"

definition hex_EncodeToString :: "byte list \<Rightarrow> string" where
  "hex_EncodeToString bs =
     concat (map (\<lambda>b. [hextable ! unat (drop_bit 4 b), hextable ! unat (b AND 0x0f)]) bs)"

text \<open>
  \<^verbatim>\<open>
  func hashObject(content string) string {
      hasher := sha1.New()
      hasher.Write([]byte(content))
      return hex.EncodeToString(hasher.Sum(nil))
  }
  \<close>
\<close>

definition hashObject :: "string \<Rightarrow> string" where
  "hashObject content = hex_EncodeToString (sha1_Sum (map of_char content))"


section \<open>The file system and the clock\<close>

text \<open>
  The program acts on the file system through \<^verbatim>\<open>os\<close>, \<^verbatim>\<open>io/ioutil\<close> and \<^verbatim>\<open>path/filepath\<close>.
  A file system is a finite map from absolute paths, given as lists of components below
  the root, to nodes. There are no links, and a single process acts on it. Every call either
  has its effect or fails and changes nothing.

  What the disk does apart from that (permissions, a full or failing device) is a
  parameter of each call: \<open>faults\<close> says which calls are refused. The clock is a
  parameter too: \<open>now_String\<close> is the text of \<^verbatim>\<open>time.Now().String()\<close> and
  \<open>now_RFC1123\<close> the text of \<^verbatim>\<open>time.Now().Format(time.RFC1123)\<close>, read at two
  different moments.
\<close>

type_synonym path = "string list"

datatype node = Dir | File string

type_synonym fs = "(path, node) fmap"

datatype oserr = NotExist | IsDir | NotDir | NotEmpty | BadHandle | Fault

datatype syscall =
    SysGetwd
  | SysStat path
  | SysMkdirAll path
  | SysReadFile path
  | SysWriteFile path
  | SysOpenFile path
  | SysWriteString path
  | SysRemove path

record env =
  cwd :: path
  faults :: "syscall \<Rightarrow> bool"
  now_String :: string
  now_RFC1123 :: string

definition os_Getwd :: "env \<Rightarrow> oserr + path" where
  "os_Getwd env = (if faults env SysGetwd then Inl Fault else Inr (cwd env))"

text \<open>\<^verbatim>\<open>filepath.Join\<close> of a clean directory and single clean components.\<close>

definition filepath_Join :: "path \<Rightarrow> string list \<Rightarrow> path" where
  "filepath_Join dir elems = dir @ elems"

definition os_Stat :: "env \<Rightarrow> fs \<Rightarrow> path \<Rightarrow> oserr + node" where
  "os_Stat env fs p =
     (if faults env (SysStat p) then Inl Fault
      else case fmlookup fs p of None \<Rightarrow> Inl NotExist | Some n \<Rightarrow> Inr n)"

fun os_IsNotExist :: "oserr + 'a \<Rightarrow> bool" where
  "os_IsNotExist (Inl NotExist) = True"
| "os_IsNotExist _ = False"

fun is_file :: "node option \<Rightarrow> bool" where
  "is_file (Some (File c)) = True"
| "is_file _ = False"

text \<open>The directory that is to hold \<open>p\<close> must be there.\<close>

definition parent_dir :: "fs \<Rightarrow> path \<Rightarrow> oserr option" where
  "parent_dir fs p =
     (if p = [] then None
      else case fmlookup fs (butlast p) of
             None \<Rightarrow> Some NotExist
           | Some (File c) \<Rightarrow> Some NotDir
           | Some Dir \<Rightarrow> None)"

text \<open>\<^verbatim>\<open>os.MkdirAll\<close> creates the directory and every missing parent; a file in the way
  is an error.\<close>

definition mkdir :: "path \<Rightarrow> fs \<Rightarrow> fs" where
  "mkdir q fs = (if fmlookup fs q = None then fmupd q Dir fs else fs)"

definition os_MkdirAll :: "env \<Rightarrow> fs \<Rightarrow> path \<Rightarrow> oserr + fs" where
  "os_MkdirAll env fs p =
     (if faults env (SysMkdirAll p) then Inl Fault
      else if \<exists>q \<in> set (prefixes p). is_file (fmlookup fs q) then Inl NotDir
      else Inr (fold mkdir (prefixes p) fs))"

definition ioutil_ReadFile :: "env \<Rightarrow> fs \<Rightarrow> path \<Rightarrow> oserr + string" where
  "ioutil_ReadFile env fs p =
     (if faults env (SysReadFile p) then Inl Fault
      else case fmlookup fs p of
             None \<Rightarrow> Inl NotExist
           | Some Dir \<Rightarrow> Inl IsDir
           | Some (File c) \<Rightarrow> Inr c)"

text \<open>\<^verbatim>\<open>ioutil.WriteFile\<close> creates the file or replaces its content.\<close>

definition ioutil_WriteFile :: "env \<Rightarrow> fs \<Rightarrow> path \<Rightarrow> string \<Rightarrow> oserr + fs" where
  "ioutil_WriteFile env fs p data =
     (if faults env (SysWriteFile p) then Inl Fault
      else case parent_dir fs p of
             Some e \<Rightarrow> Inl e
           | None \<Rightarrow>
               (case fmlookup fs p of
                  Some Dir \<Rightarrow> Inl IsDir
                | _ \<Rightarrow> Inr (fmupd p (File data) fs)))"

text \<open>\<^verbatim>\<open>os.OpenFile(p, os.O_APPEND|os.O_CREATE|os.O_WRONLY, 0644)\<close> creates an empty
  file when there is none. The handle it returns is represented by the path.\<close>

definition os_OpenFile :: "env \<Rightarrow> fs \<Rightarrow> path \<Rightarrow> oserr + fs" where
  "os_OpenFile env fs p =
     (if faults env (SysOpenFile p) then Inl Fault
      else case parent_dir fs p of
             Some e \<Rightarrow> Inl e
           | None \<Rightarrow>
               (case fmlookup fs p of
                  Some Dir \<Rightarrow> Inl IsDir
                | Some (File c) \<Rightarrow> Inr fs
                | None \<Rightarrow> Inr (fmupd p (File []) fs)))"

text \<open>\<^verbatim>\<open>f.WriteString(s)\<close> on a handle opened for appending.\<close>

definition file_WriteString :: "env \<Rightarrow> fs \<Rightarrow> path \<Rightarrow> string \<Rightarrow> oserr + fs" where
  "file_WriteString env fs f s =
     (if faults env (SysWriteString f) then Inl Fault
      else case fmlookup fs f of
             Some (File c) \<Rightarrow> Inr (fmupd f (File (c @ s)) fs)
           | _ \<Rightarrow> Inl BadHandle)"

text \<open>\<^verbatim>\<open>os.Remove\<close> removes a file or an empty directory.\<close>

definition os_Remove :: "env \<Rightarrow> fs \<Rightarrow> path \<Rightarrow> oserr + fs" where
  "os_Remove env fs p =
     (if faults env (SysRemove p) then Inl Fault
      else case fmlookup fs p of
             None \<Rightarrow> Inl NotExist
           | Some (File c) \<Rightarrow> Inr (fmdrop p fs)
           | Some Dir \<Rightarrow>
               (if \<exists>q \<in> fmdom' fs. q \<noteq> [] \<and> butlast q = p then Inl NotEmpty
                else Inr (fmdrop p fs)))"

text \<open>
  A file name given on the command line is resolved by the system, component by
  component, from the root when it starts with a slash and from the working directory
  otherwise.
\<close>

fun split_slash :: "string \<Rightarrow> string list" where
  "split_slash [] = [[]]"
| "split_slash (c # cs) =
     (if c = CHR ''/'' then [] # split_slash cs
      else (case split_slash cs of
              [] \<Rightarrow> [[c]]
            | w # ws \<Rightarrow> (c # w) # ws))"

fun walk :: "fs \<Rightarrow> path \<Rightarrow> string list \<Rightarrow> oserr + path" where
  "walk fs cur [] = Inr cur"
| "walk fs cur (c # cs) =
     (case fmlookup fs cur of
        None \<Rightarrow> Inl NotExist
      | Some (File x) \<Rightarrow> Inl NotDir
      | Some Dir \<Rightarrow>
          (if c = [] \<or> c = ''.'' then walk fs cur cs
           else if c = ''..'' then walk fs (butlast cur) cs
           else walk fs (cur @ [c]) cs))"

definition resolve :: "env \<Rightarrow> fs \<Rightarrow> string \<Rightarrow> oserr + path" where
  "resolve env fs name =
     (if name = [] then Inl NotExist
      else if hd name = CHR ''/'' then walk fs [] (split_slash name)
      else walk fs (cwd env) (split_slash name))"

definition ioutil_ReadFile_name :: "env \<Rightarrow> fs \<Rightarrow> string \<Rightarrow> oserr + string" where
  "ioutil_ReadFile_name env fs name =
     (case resolve env fs name of
        Inl e \<Rightarrow> Inl e
      | Inr p \<Rightarrow> ioutil_ReadFile env fs p)"

section \<open>The repository operations\<close>

text \<open>One constructor for each \<^verbatim>\<open>fmt.Errorf\<close> of the program, with the wrapped cause.\<close>

datatype error =
    GetwdFailed oserr            \<comment> \<open>failed to get current directory\<close>
  | AlreadyExists                \<comment> \<open>.yo directory already exists\<close>
  | CreateYoFailed oserr         \<comment> \<open>failed to create .yo directory\<close>
  | CreateLogsFailed oserr       \<comment> \<open>failed to create logs directory\<close>
  | ReadFileFailed oserr         \<comment> \<open>failed to read file\<close>
  | WriteObjectFailed oserr      \<comment> \<open>failed to write object file\<close>
  | OpenStagingFailed oserr      \<comment> \<open>failed to open staging area\<close>
  | WriteStagingFailed oserr     \<comment> \<open>failed to write to staging area\<close>
  | ReadStagingFailed oserr      \<comment> \<open>failed to read staging area\<close>
  | WriteCommitFailed oserr      \<comment> \<open>failed to write commit object\<close>
  | OpenLogFailed oserr          \<comment> \<open>failed to open log file\<close>
  | WriteLogFailed oserr         \<comment> \<open>failed to write log entry\<close>
  | ClearStagingFailed oserr     \<comment> \<open>failed to clear staging area\<close>
  | ReadLogFailed oserr          \<comment> \<open>failed to read log file\<close>

text \<open>
  A Go function returning \<^verbatim>\<open>error\<close> is modelled as returning \<^typ>\<open>error option\<close>
  (\<open>None\<close> for \<^verbatim>\<open>nil\<close>) together with the file system it leaves behind, also when it
  fails.
\<close>

definition yoInit :: "env \<Rightarrow> fs \<Rightarrow> error option \<times> fs" where
  "yoInit env fs =
     (case os_Getwd env of
        Inl err \<Rightarrow> (Some (GetwdFailed err), fs)
      | Inr currentDir \<Rightarrow>
          (let repoPath = filepath_Join currentDir [''.yo'']
           in if \<not> os_IsNotExist (os_Stat env fs repoPath) then (Some AlreadyExists, fs)
              else case os_MkdirAll env fs (filepath_Join repoPath [''objects'']) of
                     Inl err \<Rightarrow> (Some (CreateYoFailed err), fs)
                   | Inr fs1 \<Rightarrow>
                       (case os_MkdirAll env fs1 (filepath_Join repoPath [''logs'']) of
                          Inl err \<Rightarrow> (Some (CreateLogsFailed err), fs1)
                        | Inr fs2 \<Rightarrow> (None, fs2))))"

text \<open>
  The other operations discard the error of \<^verbatim>\<open>os.Getwd\<close>. When it fails,
  \<open>repoPath\<close> is empty and the joined paths are relative, which the system resolves
  against the same working directory: the paths denote the same files either way.
\<close>

definition objectPath :: "path \<Rightarrow> string \<Rightarrow> path" where
  "objectPath repoPath hash = filepath_Join repoPath [''.yo'', ''objects'', hash]"

definition stagingPath :: "path \<Rightarrow> path" where
  "stagingPath repoPath = filepath_Join repoPath [''.yo'', ''staging'']"

definition logPath :: "path \<Rightarrow> path" where
  "logPath repoPath = filepath_Join repoPath [''.yo'', ''logs'', ''commits'']"

text \<open>\<^verbatim>\<open>fmt.Sprintf("%s %s\n", hash, file)\<close>\<close>

definition stagingLine :: "string \<Rightarrow> string \<Rightarrow> string" where
  "stagingLine hash file = hash @ '' '' @ file @ [CHR 0x0A]"

definition yoAdd :: "env \<Rightarrow> fs \<Rightarrow> string \<Rightarrow> error option \<times> fs" where
  "yoAdd env fs file =
     (case ioutil_ReadFile_name env fs file of
        Inl err \<Rightarrow> (Some (ReadFileFailed err), fs)
      | Inr content \<Rightarrow>
          (let hash = hashObject content;
               repoPath = cwd env
           in case ioutil_WriteFile env fs (objectPath repoPath hash) content of
                Inl err \<Rightarrow> (Some (WriteObjectFailed err), fs)
              | Inr fs1 \<Rightarrow>
                  (case os_OpenFile env fs1 (stagingPath repoPath) of
                     Inl err \<Rightarrow> (Some (OpenStagingFailed err), fs1)
                   | Inr fs2 \<Rightarrow>
                       (case file_WriteString env fs2 (stagingPath repoPath)
                               (stagingLine hash file) of
                          Inl err \<Rightarrow> (Some (WriteStagingFailed err), fs2)
                        | Inr fs3 \<Rightarrow> (None, fs3)))))"

text \<open>\<^verbatim>\<open>hashObject(string(stagingContent) + message + time.Now().String())\<close>\<close>

definition commitHash :: "env \<Rightarrow> string \<Rightarrow> string \<Rightarrow> string" where
  "commitHash env stagingContent message =
     hashObject (stagingContent @ message @ now_String env)"

text \<open>\<^verbatim>\<open>fmt.Sprintf("Commit: %s\nMessage: %s\nTime: %s\n\n", commitHash, message,
  time.Now().Format(time.RFC1123))\<close>\<close>

definition logEntry :: "env \<Rightarrow> string \<Rightarrow> string \<Rightarrow> string" where
  "logEntry env hash message =
     ''Commit: '' @ hash @ [CHR 0x0A] @ ''Message: '' @ message @ [CHR 0x0A]
       @ ''Time: '' @ now_RFC1123 env @ [CHR 0x0A, CHR 0x0A]"

definition yoCommit :: "env \<Rightarrow> fs \<Rightarrow> string \<Rightarrow> error option \<times> fs" where
  "yoCommit env fs message =
     (let repoPath = cwd env
      in case ioutil_ReadFile env fs (stagingPath repoPath) of
           Inl err \<Rightarrow> (Some (ReadStagingFailed err), fs)
         | Inr stagingContent \<Rightarrow>
             (let hash = commitHash env stagingContent message
              in case ioutil_WriteFile env fs (objectPath repoPath hash) stagingContent of
                   Inl err \<Rightarrow> (Some (WriteCommitFailed err), fs)
                 | Inr fs1 \<Rightarrow>
                     (case os_OpenFile env fs1 (logPath repoPath) of
                        Inl err \<Rightarrow> (Some (OpenLogFailed err), fs1)
                      | Inr fs2 \<Rightarrow>
                          (case file_WriteString env fs2 (logPath repoPath)
                                  (logEntry env hash message) of
                             Inl err \<Rightarrow> (Some (WriteLogFailed err), fs2)
                           | Inr fs3 \<Rightarrow>
                               (case os_Remove env fs3 (stagingPath repoPath) of
                                  Inl err \<Rightarrow> (Some (ClearStagingFailed err), fs3)
                                | Inr fs4 \<Rightarrow> (None, fs4))))))"


section \<open>Sequences of invocations\<close>

text \<open>
  \<^verbatim>\<open>main\<close> runs one command for each invocation of the program: \<^verbatim>\<open>init\<close>,
  \<^verbatim>\<open>add <file>\<close> or \<^verbatim>\<open>commit <message>\<close> (\<^verbatim>\<open>log\<close> changes nothing). A history of
  the repository is a list of invocations, each with its own clock and faults; an error
  is shown to the user and the next invocation starts from what is on disk.
\<close>

datatype cmd = Init | Add string | Commit string

fun exec :: "env \<Rightarrow> cmd \<Rightarrow> fs \<Rightarrow> error option \<times> fs" where
  "exec env Init fs = yoInit env fs"
| "exec env (Add file) fs = yoAdd env fs file"
| "exec env (Commit message) fs = yoCommit env fs message"

fun run :: "(env \<times> cmd) list \<Rightarrow> fs \<Rightarrow> fs" where
  "run [] fs = fs"
| "run ((env, c) # cs) fs = run cs (snd (exec env c fs))"

fun outcomes :: "(env \<times> cmd) list \<Rightarrow> fs \<Rightarrow> error option list" where
  "outcomes [] fs = []"
| "outcomes ((env, c) # cs) fs = fst (exec env c fs) # outcomes cs (snd (exec env c fs))"

text \<open>The text of a file; empty when there is no file.\<close>

fun text_of :: "node option \<Rightarrow> string" where
  "text_of (Some (File c)) = c"
| "text_of _ = []"





text \<open>The staging lines of the files staged in a history, in call order.\<close>

fun staged_line :: "env \<Rightarrow> cmd \<Rightarrow> fs \<Rightarrow> string list" where
  "staged_line env (Add file) fs =
     (case (fst (yoAdd env fs file), ioutil_ReadFile_name env fs file) of
        (None, Inr content) \<Rightarrow> [stagingLine (hashObject content) file]
      | _ \<Rightarrow> [])"
| "staged_line env _ fs = []"

fun staged :: "(env \<times> cmd) list \<Rightarrow> fs \<Rightarrow> string list" where
  "staged [] fs = []"
| "staged ((env, c) # cs) fs = staged_line env c fs @ staged cs (snd (exec env c fs))"

text \<open>The lines of a text, each with the newline that ends it.\<close>

fun lines_of :: "string \<Rightarrow> string list" where
  "lines_of [] = []"
| "lines_of (c # cs) =
     (if c = CHR 0x0A then [c] # lines_of cs
      else (case lines_of cs of
              [] \<Rightarrow> [[c]]
            | l # ls \<Rightarrow> (c # l) # ls))"

text \<open>A sequence of \<^verbatim>\<open>add\<close> invocations.\<close>

definition stage_calls :: "(env \<times> string) list \<Rightarrow> (env \<times> cmd) list" where
  "stage_calls calls = map (\<lambda>(env, file). (env, Add file)) calls"

section \<open>A small repository\<close>

text \<open>A working directory \<^verbatim>\<open>/repo\<close> holding one file, a disk without faults and two
  clock readings: the inputs at which the theorems below are instantiated.\<close>

definition ex_env :: env where
  "ex_env = \<lparr>cwd = [''repo''], faults = (\<lambda>call. False),
     now_String = ''2024-01-01 10:00:00.000000001 +0000 UTC m=+0.001000001'',
     now_RFC1123 = ''Mon, 01 Jan 2024 10:00:00 UTC''\<rparr>"

definition ex_root :: fs where
  "ex_root =
     fmupd [''repo'', ''a.txt''] (File ''hello'') (fmupd [''repo''] Dir (fmupd [] Dir fmempty))"

definition ex_repo :: fs where
  "ex_repo = run [(ex_env, Init)] ex_root"

definition ex_staged :: fs where
  "ex_staged = run [(ex_env, Init), (ex_env, Add ''a.txt'')] ex_root"

text \<open>A file whose name contains a newline character.\<close>

definition ex_nl_name :: string where
  "ex_nl_name = [CHR ''a'', CHR 0x0A, CHR ''b'']"

definition ex_nl_repo :: fs where
  "ex_nl_repo = fmupd [''repo'', ex_nl_name] (File ''x'') ex_repo"



text \<open>The same file staged twice, under two names.\<close>

definition ex_calls :: "(env \<times> string) list" where
  "ex_calls = [(ex_env, ''a.txt''), (ex_env, ''/repo/a.txt'')]"


section \<open>Digests are 40 lowercase hexadecimal characters\<close>

lemma length_be_bytes32: "length (be_bytes32 x) = 4"
  by (simp add: be_bytes32_def)

lemma length_sha1_Sum: "length (sha1_Sum m) = 20"
  by (simp add: sha1_Sum_def length_be_bytes32 split: prod.splits)

lemma length_hex_EncodeToString: "length (hex_EncodeToString bs) = 2 * length bs"
  by (induction bs) (simp_all add: hex_EncodeToString_def)

lemma length_hextable: "length hextable = 16"
  by (simp add: hextable_def)

lemma hi_nibble_less: "unat (drop_bit 4 (b :: byte)) < 16"
proof -
  have "unat (drop_bit 4 b) = unat b div 16"
    by (simp add: drop_bit_eq_div unat_div)
  moreover have "unat b < 256"
    using unsigned_less [of b, where ?'a = nat] by simp
  ultimately show ?thesis by simp
qed

lemma lo_nibble_eq: "unat ((b :: byte) AND 0x0f) = unat b mod 16"
proof -
  have "(0x0f :: byte) = mask 4" by (simp add: mask_eq_exp_minus_1)
  then have "b AND 0x0f = take_bit 4 b" by (simp add: take_bit_eq_mask)
  then show ?thesis by (simp add: take_bit_eq_mod unat_mod)
qed

lemma lo_nibble_less: "unat ((b :: byte) AND 0x0f) < 16"
  by (simp add: lo_nibble_eq)

lemma set_hex_EncodeToString: "set (hex_EncodeToString bs) \<subseteq> set hextable"
  using hi_nibble_less lo_nibble_less
  by (auto simp: hex_EncodeToString_def length_hextable intro!: nth_mem)

lemma length_hashObject: "length (hashObject content) = 40"
  by (simp add: hashObject_def length_hex_EncodeToString length_sha1_Sum)

lemma set_hashObject: "set (hashObject content) \<subseteq> set hextable"
  by (simp add: hashObject_def set_hex_EncodeToString)





section \<open>SHA-1 test vectors\<close>

text \<open>The model of SHA-1 computes the digests of the standard test messages (FIPS 180), of
  \<^verbatim>\<open>hello\<close>, and of the byte sequences hashed in the small repository.\<close>

lemma expand_step: "expand (numeral k) w = 
      expand (pred_numeral k) (w @ [rotl 1 (w ! (length w - 3) XOR w ! (length w - 8) XOR w ! (length w - 14) XOR w ! (length w - 16))])"
  by (simp add: numeral_eq_Suc Let_def)

lemma replicate_num: "replicate (numeral k) x = x # replicate (pred_numeral k) x"
  by (simp add: numeral_eq_Suc)

lemma u32_norm:
  "(4294967296::nat) \<le> numeral k \<Longrightarrow> (numeral k :: u32) = of_nat (numeral k mod 4294967296)"
proof -
  have "(of_nat (numeral k mod 4294967296) :: u32) = of_nat (take_bit LENGTH(32) (numeral k))"
    by (simp add: take_bit_eq_mod)
  also have "\<dots> = of_nat (numeral k)"
    by (simp only: of_nat_take_bit take_bit_length_eq)
  finally show ?thesis by simp
qed

lemmas sha1_eval = hashObject_def sha1_Sum_def sha1_pad_def be_bytes64_def sha1_block_def
  sha1_init_def sha1_f_def sha1_k_def rotl_def be_bytes32_def hex_EncodeToString_def hextable_def
  expand_step replicate_num upt_conv_Cons nth_append u32_norm

lemma hashObject_empty: "hashObject [] = ''da39a3ee5e6b4b0d3255bfef95601890afd80709''"
  by (simp add: sha1_eval)

lemma hashObject_abc: "hashObject ''abc'' = ''a9993e364706816aba3e25717850c26c9cd0d89d''"
  by (simp add: sha1_eval)

lemma hashObject_two_blocks:
  "hashObject ''abcdbcdecdefdefgefghfghighijhijkijkljklmklmnlmnomnopnopq'' =
     ''84983e441c3bd26ebaae4aa1f95129e5e54670f1''"
  by (simp add: sha1_eval)





section \<open>Effects of the operations\<close>

lemmas os_defs = os_Getwd_def os_Stat_def os_MkdirAll_def mkdir_def ioutil_ReadFile_def
  ioutil_WriteFile_def os_OpenFile_def file_WriteString_def os_Remove_def parent_dir_def
  ioutil_ReadFile_name_def resolve_def filepath_Join_def objectPath_def stagingPath_def
  logPath_def

lemmas ex_defs = ex_env_def ex_root_def ex_repo_def ex_staged_def yoInit_def yoAdd_def
  yoCommit_def Let_def

lemma paths_distinct [simp]:
  "objectPath r h \<noteq> stagingPath r" "stagingPath r \<noteq> objectPath r h"
  "objectPath r h \<noteq> logPath r" "logPath r \<noteq> objectPath r h"
  "stagingPath r \<noteq> logPath r" "logPath r \<noteq> stagingPath r"
  by (simp_all add: objectPath_def stagingPath_def logPath_def filepath_Join_def)

lemma objectPath_inj [simp]: "objectPath r h = objectPath r h' \<longleftrightarrow> h = h'"
  by (simp add: objectPath_def filepath_Join_def)

lemma yoAdd_success:
  assumes "yoAdd env fs file = (None, fs')"
  shows "\<exists>content. ioutil_ReadFile_name env fs file = Inr content
     \<and> (\<forall>q. fmlookup fs' q =
           (if q = stagingPath (cwd env)
            then Some (File (text_of (fmlookup fs (stagingPath (cwd env)))
                              @ stagingLine (hashObject content) file))
            else if q = objectPath (cwd env) (hashObject content) then Some (File content)
            else fmlookup fs q))"
  using assms
  by (auto simp: yoAdd_def Let_def ioutil_WriteFile_def os_OpenFile_def file_WriteString_def
      split: sum.splits if_splits option.splits node.splits)

lemma yoCommit_success:
  assumes "yoCommit env fs message = (None, fs')"
  shows "\<exists>s. fmlookup fs (stagingPath (cwd env)) = Some (File s)
     \<and> (\<forall>q. fmlookup fs' q =
           (if q = stagingPath (cwd env) then None
            else if q = logPath (cwd env)
            then Some (File (text_of (fmlookup fs (logPath (cwd env)))
                              @ logEntry env (commitHash env s message) message))
            else if q = objectPath (cwd env) (commitHash env s message) then Some (File s)
            else fmlookup fs q))"
  using assms
  by (auto simp: yoCommit_def Let_def ioutil_ReadFile_def ioutil_WriteFile_def os_OpenFile_def
      file_WriteString_def os_Remove_def
      split: sum.splits if_splits option.splits node.splits)


lemma fmlookup_fold_mkdir:
  "fmlookup (fold mkdir qs fs) q =
     (if q \<in> set qs \<and> fmlookup fs q = None then Some Dir else fmlookup fs q)"
  by (induction qs arbitrary: fs) (auto simp: mkdir_def)

lemma os_MkdirAll_lookup:
  assumes "os_MkdirAll env fs p = Inr fs'"
  shows "fmlookup fs' q = (if prefix q p \<and> fmlookup fs q = None then Some Dir else fmlookup fs q)"
  using assms
  by (auto simp: os_MkdirAll_def fmlookup_fold_mkdir split: if_splits)

lemma not_prefix_longer: "length p < length q \<Longrightarrow> \<not> prefix q p"
  by (auto dest: prefix_length_le)

lemma yoInit_lookup_deep:
  assumes "length (cwd env) + 2 < length q"
  shows "fmlookup (snd (yoInit env fs)) q = fmlookup fs q"
  using assms
  by (auto simp: yoInit_def Let_def os_Getwd_def filepath_Join_def os_MkdirAll_lookup
      not_prefix_longer split: sum.splits if_splits)

lemma yoInit_lookup_log [simp]:
  "fmlookup (snd (yoInit env fs)) (logPath (cwd env)) = fmlookup fs (logPath (cwd env))"
  by (rule yoInit_lookup_deep) (simp add: logPath_def filepath_Join_def)

lemma yoAdd_lookup_log [simp]:
  "fmlookup (snd (yoAdd env fs file)) (logPath (cwd env)) = fmlookup fs (logPath (cwd env))"
  by (auto simp: yoAdd_def Let_def ioutil_WriteFile_def os_OpenFile_def file_WriteString_def
      split: sum.splits if_splits option.splits node.splits)







section \<open>The object store\<close>

lemma yoAdd_object:
  assumes "ioutil_ReadFile_name env fs file = Inr b"
    and "\<forall>e. fst (yoAdd env fs file) \<noteq> Some (WriteObjectFailed e)"
  shows "fmlookup (snd (yoAdd env fs file)) (objectPath (cwd env) (hashObject b)) =
    Some (File b)"
  using assms
  by (auto simp: yoAdd_def Let_def ioutil_WriteFile_def os_OpenFile_def file_WriteString_def
      split: sum.splits if_splits option.splits node.splits)

text \<open>
  Claim C1. Whenever \<^verbatim>\<open>yoAdd\<close> reads the bytes \<open>b\<close> and its object write does not fail,
  the object \<open>b\<close> is stored under the name \<open>hashObject b\<close>. That name depends on \<open>b\<close>
  alone, not on the call, the disk or the file name; it is the hexadecimal encoding of
  the SHA-1 of \<open>b\<close>, 40 characters long, each one of \<^verbatim>\<open>0123456789abcdef\<close>.
\<close>

theorem put_digest_deterministic:
  assumes "ioutil_ReadFile_name env fs file = Inr b"
    and "\<forall>e. fst (yoAdd env fs file) \<noteq> Some (WriteObjectFailed e)"
  shows "fmlookup (snd (yoAdd env fs file)) (objectPath (cwd env) (hashObject b)) =
      Some (File b)
    \<and> hashObject b = hex_EncodeToString (sha1_Sum (map of_char b))
    \<and> length (hashObject b) = 40
    \<and> set (hashObject b) \<subseteq> set ''0123456789abcdef''"
  using yoAdd_object [OF assms] length_hashObject [of b] set_hashObject [of b]
  by (simp add: hashObject_def hextable_def)

theorem put_digest_deterministic_witness:
  "ioutil_ReadFile_name ex_env ex_repo ''a.txt'' = Inr ''hello''
    \<and> (\<forall>e. fst (yoAdd ex_env ex_repo ''a.txt'') \<noteq> Some (WriteObjectFailed e))
    \<and> fmlookup (snd (yoAdd ex_env ex_repo ''a.txt''))
         (objectPath (cwd ex_env) (hashObject ''hello'')) = Some (File ''hello'')
    \<and> hashObject ''hello'' = hex_EncodeToString (sha1_Sum (map of_char ''hello''))
    \<and> length (hashObject ''hello'') = 40
    \<and> set (hashObject ''hello'') \<subseteq> set ''0123456789abcdef''"
proof -
  have r: "ioutil_ReadFile_name ex_env ex_repo ''a.txt'' = Inr ''hello''"
    by (simp add: ex_defs os_defs)
  have w: "\<forall>e. fst (yoAdd ex_env ex_repo ''a.txt'') \<noteq> Some (WriteObjectFailed e)"
    by (simp add: ex_defs os_defs)
  show ?thesis
    using put_digest_deterministic [OF r w] r w by blast
qed

section \<open>Staging\<close>

lemma lines_of_terminated_nonempty: "lines_of (xs @ [CHR 0x0A]) \<noteq> []"
  by (induction xs) (auto split: list.splits)

lemma length_lines_of_terminated:
  "length (lines_of (xs @ [CHR 0x0A])) = Suc (count_list xs (CHR 0x0A))"
  using lines_of_terminated_nonempty
  by (induction xs) (auto split: list.splits)

lemma lines_of_single:
  "CHR 0x0A \<notin> set l \<Longrightarrow> lines_of (l @ [CHR 0x0A]) = [l @ [CHR 0x0A]]"
  by (induction l) auto

lemma lines_of_append:
  "xs = [] \<or> last xs = CHR 0x0A \<Longrightarrow> lines_of (xs @ ys) = lines_of xs @ lines_of ys"
proof (induction xs)
  case Nil
  then show ?case by simp
next
  case (Cons x xs)
  show ?case
  proof (cases "xs = []")
    case True
    with Cons.prems show ?thesis by simp
  next
    case False
    with Cons.prems have "last xs = CHR 0x0A" by simp
    with Cons.IH have ih: "lines_of (xs @ ys) = lines_of xs @ lines_of ys" by simp
    from False \<open>last xs = CHR 0x0A\<close> have "xs = butlast xs @ [CHR 0x0A]"
      by (metis append_butlast_last_id)
    then have "lines_of xs \<noteq> []"
      by (metis lines_of_terminated_nonempty)
    with ih show ?thesis by (auto split: list.splits)
  qed
qed

lemma count_list_ge1: "x \<in> set xs \<Longrightarrow> 1 \<le> count_list xs x"
  by (induction xs) auto

lemma success_eq: "fst r = None \<Longrightarrow> r = (None, snd r)"
  by (cases r) simp

text \<open>
  Claim C10. A successful \<^verbatim>\<open>yoAdd\<close> appends to the staging record exactly the digest of
  the content it read, a space, the path as it was given and a newline: the path is
  neither escaped, quoted nor checked. The appended text has one line more than the path
  has newline characters, so more than one line when the path contains a newline; a
  record made of complete lines grows by that many lines.
\<close>

theorem stage_appends_verbatim:
  assumes "yoAdd env fs path = (None, fs')"
  shows "\<exists>content.
      ioutil_ReadFile_name env fs path = Inr content
    \<and> fmlookup fs' (stagingPath (cwd env)) =
        Some (File (text_of (fmlookup fs (stagingPath (cwd env)))
                     @ hashObject content @ '' '' @ path @ [CHR 0x0A]))
    \<and> length (lines_of (hashObject content @ '' '' @ path @ [CHR 0x0A])) =
        Suc (count_list path (CHR 0x0A))
    \<and> (CHR 0x0A \<in> set path \<longrightarrow>
         1 < length (lines_of (hashObject content @ '' '' @ path @ [CHR 0x0A])))
    \<and> (text_of (fmlookup fs (stagingPath (cwd env))) = []
         \<or> last (text_of (fmlookup fs (stagingPath (cwd env)))) = CHR 0x0A \<longrightarrow>
         length (lines_of (text_of (fmlookup fs' (stagingPath (cwd env))))) =
           length (lines_of (text_of (fmlookup fs (stagingPath (cwd env)))))
             + Suc (count_list path (CHR 0x0A)))"
proof -
  let ?old = "text_of (fmlookup fs (stagingPath (cwd env)))"
  from yoAdd_success [OF assms] obtain content where
    r: "ioutil_ReadFile_name env fs path = Inr content" and
    l: "fmlookup fs' (stagingPath (cwd env)) =
        Some (File (?old @ stagingLine (hashObject content) path))"
    by auto
  let ?new = "hashObject content @ '' '' @ path @ [CHR 0x0A]"
  have "CHR 0x0A \<notin> set (hashObject content)"
    using set_hashObject [of content] by (auto simp: hextable_def)
  then have c: "count_list (hashObject content @ '' '' @ path) (CHR 0x0A) =
      count_list path (CHR 0x0A)"
    by (simp add: count_list_0_iff)
  have n: "length (lines_of ?new) = Suc (count_list path (CHR 0x0A))"
    using length_lines_of_terminated [of "hashObject content @ '' '' @ path"] c by simp
  have a: "length (lines_of (?old @ ?new)) = length (lines_of ?old) + length (lines_of ?new)"
    if "?old = [] \<or> last ?old = CHR 0x0A"
    using lines_of_append [OF that, of ?new] by simp
  have l': "fmlookup fs' (stagingPath (cwd env)) = Some (File (?old @ ?new))"
    using l by (simp add: stagingLine_def)
  have g: "CHR 0x0A \<in> set path \<longrightarrow> 1 < length (lines_of ?new)"
    using n count_list_ge1 [of "CHR 0x0A" path] by auto
  have t: "?old = [] \<or> last ?old = CHR 0x0A \<longrightarrow>
      length (lines_of (text_of (fmlookup fs' (stagingPath (cwd env))))) =
        length (lines_of ?old) + Suc (count_list path (CHR 0x0A))"
    using a n l' by auto
  from r l' n g t show ?thesis by blast
qed

theorem stage_appends_verbatim_witness:
  "yoAdd ex_env ex_nl_repo ex_nl_name = (None, snd (yoAdd ex_env ex_nl_repo ex_nl_name))
    \<and> fmlookup (snd (yoAdd ex_env ex_nl_repo ex_nl_name)) (stagingPath (cwd ex_env)) =
        Some (File (hashObject ''x'' @ '' '' @ ex_nl_name @ [CHR 0x0A]))
    \<and> length (lines_of (hashObject ''x'' @ '' '' @ ex_nl_name @ [CHR 0x0A])) = 2"
proof -
  have ok: "yoAdd ex_env ex_nl_repo ex_nl_name =
      (None, snd (yoAdd ex_env ex_nl_repo ex_nl_name))"
    by (rule success_eq) (simp add: ex_defs os_defs ex_nl_repo_def ex_nl_name_def)
  have r: "ioutil_ReadFile_name ex_env ex_nl_repo ex_nl_name = Inr ''x''"
    by (simp add: ex_defs os_defs ex_nl_repo_def ex_nl_name_def)
  have old: "fmlookup ex_nl_repo (stagingPath (cwd ex_env)) = None"
    by (simp add: ex_defs os_defs ex_nl_repo_def ex_nl_name_def)
  have c: "count_list ex_nl_name (CHR 0x0A) = 1"
    by (simp add: ex_nl_name_def)
  from stage_appends_verbatim [OF ok] r old c ok show ?thesis
    by auto
qed

section \<open>Commit\<close>

text \<open>
  Claim C2. A successful \<^verbatim>\<open>yoCommit\<close> read the staging record \<open>stagingBytes\<close>; the digest
  under which it stores the commit object and which it writes into the log record is
  the lowercase hexadecimal SHA-1 of \<open>stagingBytes @ message @ now_String env\<close>, where
  \<open>now_String env\<close> is the one reading of the clock taken for the hash. The time shown
  in the log record is the other reading, \<open>now_RFC1123 env\<close>.
\<close>

theorem commit_digest_formula:
  assumes "yoCommit env fs message = (None, fs')"
  shows "\<exists>stagingBytes.
      fmlookup fs (stagingPath (cwd env)) = Some (File stagingBytes)
    \<and> (let commitDigest = hashObject (stagingBytes @ message @ now_String env)
       in commitDigest =
            hex_EncodeToString
              (sha1_Sum (map of_char (stagingBytes @ message @ now_String env)))
        \<and> length commitDigest = 40
        \<and> set commitDigest \<subseteq> set ''0123456789abcdef''
        \<and> fmlookup fs' (objectPath (cwd env) commitDigest) \<noteq> None
        \<and> fmlookup fs' (logPath (cwd env)) =
            Some (File (text_of (fmlookup fs (logPath (cwd env)))
              @ ''Commit: '' @ commitDigest @ [CHR 0x0A]
              @ ''Message: '' @ message @ [CHR 0x0A]
              @ ''Time: '' @ now_RFC1123 env @ [CHR 0x0A, CHR 0x0A])))"
proof -
  from yoCommit_success [OF assms] obtain s where
    s: "fmlookup fs (stagingPath (cwd env)) = Some (File s)" and
    l: "\<And>q. fmlookup fs' q =
           (if q = stagingPath (cwd env) then None
            else if q = logPath (cwd env)
            then Some (File (text_of (fmlookup fs (logPath (cwd env)))
                              @ logEntry env (commitHash env s message) message))
            else if q = objectPath (cwd env) (commitHash env s message) then Some (File s)
            else fmlookup fs q)"
    by blast
  let ?d = "hashObject (s @ message @ now_String env)"
  have 1: "?d = hex_EncodeToString (sha1_Sum (map of_char (s @ message @ now_String env)))"
    by (simp add: hashObject_def)
  have 2: "length ?d = 40" by (rule length_hashObject)
  have 3: "set ?d \<subseteq> set ''0123456789abcdef''"
    using set_hashObject [of "s @ message @ now_String env"] by (simp add: hextable_def)
  have 4: "fmlookup fs' (objectPath (cwd env) ?d) \<noteq> None"
    by (simp add: l commitHash_def)
  have 5: "fmlookup fs' (logPath (cwd env)) =
            Some (File (text_of (fmlookup fs (logPath (cwd env)))
              @ ''Commit: '' @ ?d @ [CHR 0x0A]
              @ ''Message: '' @ message @ [CHR 0x0A]
              @ ''Time: '' @ now_RFC1123 env @ [CHR 0x0A, CHR 0x0A]))"
    by (simp add: l commitHash_def logEntry_def)
  from s 1 2 3 4 5 show ?thesis
    unfolding Let_def by blast
qed

lemma ex_staged_staging:
  "fmlookup ex_staged (stagingPath (cwd ex_env)) =
     Some (File (hashObject ''hello'' @ '' a.txt'' @ [CHR 0x0A]))"
  by (simp add: ex_defs os_defs stagingLine_def)

lemma ex_staged_log: "fmlookup ex_staged (logPath (cwd ex_env)) = None"
  by (simp add: ex_defs os_defs)

lemma ex_commit_ok:
  "yoCommit ex_env ex_staged ''first'' = (None, snd (yoCommit ex_env ex_staged ''first''))"
  by (rule success_eq) (simp add: ex_defs os_defs stagingLine_def)

theorem commit_digest_formula_witness:
  "yoCommit ex_env ex_staged ''first'' = (None, snd (yoCommit ex_env ex_staged ''first''))
    \<and> fmlookup (snd (yoCommit ex_env ex_staged ''first'')) (logPath (cwd ex_env)) =
        Some (File (''Commit: ''
          @ hashObject (hashObject ''hello'' @ '' a.txt'' @ [CHR 0x0A] @ ''first''
                          @ now_String ex_env)
          @ [CHR 0x0A] @ ''Message: first'' @ [CHR 0x0A]
          @ ''Time: '' @ now_RFC1123 ex_env @ [CHR 0x0A, CHR 0x0A]))"
  using commit_digest_formula [OF ex_commit_ok] ex_commit_ok
  by (simp add: ex_staged_staging ex_staged_log Let_def)







section \<open>Initialisation\<close>

lemma prefix_snoc2:
  "prefix q (r @ [a, b]) \<longleftrightarrow> prefix q r \<or> q = r @ [a] \<or> q = r @ [a, b]"
  using prefix_snoc [of q "r @ [a]" b] prefix_snoc [of q r a] by auto

lemma yoInit_exists:
  assumes "fmlookup fs (cwd env @ [''.yo'']) \<noteq> None" and "\<not> faults env SysGetwd"
  shows "yoInit env fs = (Some AlreadyExists, fs)"
  using assms
  by (auto simp: yoInit_def Let_def os_Getwd_def os_Stat_def filepath_Join_def)

lemma yoInit_fresh:
  assumes fresh: "\<forall>q. fmlookup fs (cwd env @ ''.yo'' # q) = None"
    and dir: "\<forall>q \<in> set (prefixes (cwd env)). fmlookup fs q = Some Dir"
    and ok: "\<not> faults env SysGetwd" "\<not> faults env (SysStat (cwd env @ [''.yo'']))"
      "\<not> faults env (SysMkdirAll (cwd env @ [''.yo'', ''objects'']))"
      "\<not> faults env (SysMkdirAll (cwd env @ [''.yo'', ''logs'']))"
  shows "fst (yoInit env fs) = None
    \<and> (\<forall>q. fmlookup (snd (yoInit env fs)) q =
          (if q = cwd env @ [''.yo''] \<or> q = cwd env @ [''.yo'', ''objects'']
              \<or> q = cwd env @ [''.yo'', ''logs'']
           then Some Dir else fmlookup fs q))"
proof -
  let ?r = "cwd env"
  have yo: "fmlookup fs (?r @ [''.yo'']) = None" using fresh by blast
  have ob: "fmlookup fs (?r @ [''.yo'', ''objects'']) = None"
    using fresh [rule_format, of "[''objects'']"] by simp
  have lg: "fmlookup fs (?r @ [''.yo'', ''logs'']) = None"
    using fresh [rule_format, of "[''logs'']"] by simp
  have pd: "prefix q ?r \<Longrightarrow> fmlookup fs q = Some Dir" for q
    using dir by simp
  have nf1: "\<not> (\<exists>q \<in> set (prefixes (?r @ [''.yo'', ''objects''])). is_file (fmlookup fs q))"
    using yo ob pd by (auto simp: prefix_snoc2)
  let ?fs1 = "fold mkdir (prefixes (?r @ [''.yo'', ''objects''])) fs"
  have m1: "os_MkdirAll env fs (?r @ [''.yo'', ''objects'']) = Inr ?fs1"
    using nf1 ok by (simp add: os_MkdirAll_def)
  have l1: "fmlookup ?fs1 q =
      (if q = ?r @ [''.yo''] \<or> q = ?r @ [''.yo'', ''objects''] then Some Dir
       else fmlookup fs q)" for q
    using yo ob pd [of q] by (auto simp: fmlookup_fold_mkdir prefix_snoc2)
  have nf2: "\<not> (\<exists>q \<in> set (prefixes (?r @ [''.yo'', ''logs''])). is_file (fmlookup ?fs1 q))"
    using lg pd by (auto simp: prefix_snoc2 l1)
  let ?fs2 = "fold mkdir (prefixes (?r @ [''.yo'', ''logs''])) ?fs1"
  have m2: "os_MkdirAll env ?fs1 (?r @ [''.yo'', ''logs'']) = Inr ?fs2"
    using nf2 ok by (simp add: os_MkdirAll_def)
  have l2: "fmlookup ?fs2 q =
      (if q = ?r @ [''.yo''] \<or> q = ?r @ [''.yo'', ''objects''] \<or> q = ?r @ [''.yo'', ''logs'']
       then Some Dir else fmlookup fs q)" for q
    using lg pd [of q] by (auto simp: fmlookup_fold_mkdir [of _ ?fs1] prefix_snoc2 l1)
  have "yoInit env fs = (None, ?fs2)"
    using ok yo m1 m2 by (simp add: yoInit_def Let_def os_Getwd_def os_Stat_def filepath_Join_def)
  with l2 show ?thesis by simp
qed

text \<open>
  Claim C7. When something already exists at \<^verbatim>\<open>.yo\<close> in the working directory (and the
  working directory can be determined), \<^verbatim>\<open>yoInit\<close> fails with ``\<^verbatim>\<open>.yo\<close> directory already
  exists'' and the file system is unchanged. When nothing exists at or below \<^verbatim>\<open>.yo\<close>,
  the working directory is there and no call is refused, \<^verbatim>\<open>yoInit\<close> succeeds: it creates
  the directories \<^verbatim>\<open>.yo\<close>, \<^verbatim>\<open>.yo/objects\<close> and \<^verbatim>\<open>.yo/logs\<close>, the last two empty, and changes
  nothing else.
\<close>

theorem init_guard:
  "(fmlookup fs (cwd env @ [''.yo'']) \<noteq> None \<and> \<not> faults env SysGetwd \<longrightarrow>
      yoInit env fs = (Some AlreadyExists, fs))
   \<and> ((\<forall>q. fmlookup fs (cwd env @ ''.yo'' # q) = None)
        \<and> (\<forall>q \<in> set (prefixes (cwd env)). fmlookup fs q = Some Dir)
        \<and> \<not> faults env SysGetwd \<and> \<not> faults env (SysStat (cwd env @ [''.yo'']))
        \<and> \<not> faults env (SysMkdirAll (cwd env @ [''.yo'', ''objects'']))
        \<and> \<not> faults env (SysMkdirAll (cwd env @ [''.yo'', ''logs''])) \<longrightarrow>
      fst (yoInit env fs) = None
      \<and> (\<forall>q. fmlookup (snd (yoInit env fs)) q =
            (if q = cwd env @ [''.yo''] \<or> q = cwd env @ [''.yo'', ''objects'']
                \<or> q = cwd env @ [''.yo'', ''logs'']
             then Some Dir else fmlookup fs q))
      \<and> (\<forall>q. q \<noteq> [] \<longrightarrow>
            fmlookup (snd (yoInit env fs)) (cwd env @ [''.yo'', ''objects''] @ q) = None
          \<and> fmlookup (snd (yoInit env fs)) (cwd env @ [''.yo'', ''logs''] @ q) = None))"
proof (intro conjI impI)
  assume "fmlookup fs (cwd env @ [''.yo'']) \<noteq> None \<and> \<not> faults env SysGetwd"
  then show "yoInit env fs = (Some AlreadyExists, fs)"
    by (simp add: yoInit_exists)
next
  assume a: "(\<forall>q. fmlookup fs (cwd env @ ''.yo'' # q) = None)
        \<and> (\<forall>q \<in> set (prefixes (cwd env)). fmlookup fs q = Some Dir)
        \<and> \<not> faults env SysGetwd \<and> \<not> faults env (SysStat (cwd env @ [''.yo'']))
        \<and> \<not> faults env (SysMkdirAll (cwd env @ [''.yo'', ''objects'']))
        \<and> \<not> faults env (SysMkdirAll (cwd env @ [''.yo'', ''logs'']))"
  then have r: "fst (yoInit env fs) = None
    \<and> (\<forall>q. fmlookup (snd (yoInit env fs)) q =
          (if q = cwd env @ [''.yo''] \<or> q = cwd env @ [''.yo'', ''objects'']
              \<or> q = cwd env @ [''.yo'', ''logs'']
           then Some Dir else fmlookup fs q))"
    by (intro yoInit_fresh) simp_all
  from r show "fst (yoInit env fs) = None" by simp
  from r show "\<forall>q. fmlookup (snd (yoInit env fs)) q =
            (if q = cwd env @ [''.yo''] \<or> q = cwd env @ [''.yo'', ''objects'']
                \<or> q = cwd env @ [''.yo'', ''logs'']
             then Some Dir else fmlookup fs q)" by simp
  from a have fresh: "fmlookup fs (cwd env @ ''.yo'' # q) = None" for q by simp
  show "\<forall>q. q \<noteq> [] \<longrightarrow>
            fmlookup (snd (yoInit env fs)) (cwd env @ [''.yo'', ''objects''] @ q) = None
          \<and> fmlookup (snd (yoInit env fs)) (cwd env @ [''.yo'', ''logs''] @ q) = None"
    using r fresh by simp
qed

theorem init_guard_witness:
  "fmlookup ex_repo (cwd ex_env @ [''.yo'']) \<noteq> None
   \<and> yoInit ex_env ex_repo = (Some AlreadyExists, ex_repo)
   \<and> fmlookup ex_root (cwd ex_env @ [''.yo'']) = None
   \<and> fst (yoInit ex_env ex_root) = None
   \<and> fmlookup (snd (yoInit ex_env ex_root)) (cwd ex_env @ [''.yo'', ''objects'']) = Some Dir
   \<and> fmlookup (snd (yoInit ex_env ex_root)) (cwd ex_env @ [''.yo'', ''logs'']) = Some Dir
   \<and> fmlookup (snd (yoInit ex_env ex_root)) [''repo'', ''a.txt''] = Some (File ''hello'')"
proof -
  have f: "\<not> faults ex_env x" for x
    by (simp add: ex_env_def)
  have e: "fmlookup ex_repo (cwd ex_env @ [''.yo'']) \<noteq> None"
    by (simp add: ex_defs os_defs)
  have fresh: "\<forall>q. fmlookup ex_root (cwd ex_env @ ''.yo'' # q) = None"
    by (simp add: ex_env_def ex_root_def)
  have dir: "\<forall>q \<in> set (prefixes (cwd ex_env)). fmlookup ex_root q = Some Dir"
    by (simp add: ex_env_def ex_root_def)
  have c: "cwd ex_env = [''repo'']"
    by (simp add: ex_env_def)
  from init_guard [of ex_repo ex_env] e f
  have 1: "yoInit ex_env ex_repo = (Some AlreadyExists, ex_repo)" by simp
  from init_guard [of ex_root ex_env] fresh dir f
  have 2: "fst (yoInit ex_env ex_root) = None
      \<and> (\<forall>q. fmlookup (snd (yoInit ex_env ex_root)) q =
            (if q = cwd ex_env @ [''.yo''] \<or> q = cwd ex_env @ [''.yo'', ''objects'']
                \<or> q = cwd ex_env @ [''.yo'', ''logs'']
             then Some Dir else fmlookup ex_root q))" by blast
  have 3: "fmlookup ex_root [''repo'', ''a.txt''] = Some (File ''hello'')"
    by (simp add: ex_root_def)
  from fresh [rule_format, of "[]"] have 4: "fmlookup ex_root (cwd ex_env @ [''.yo'']) = None" .
  from e 1 2 3 4 show ?thesis
    by (simp add: c)
qed

section \<open>Commit failures\<close>















section \<open>History\<close>




lemma ex_staged_lookup:
  "fmlookup ex_staged q =
     (if q = [''repo'', ''.yo'', ''staging'']
      then Some (File (hashObject ''hello'' @ '' a.txt'' @ [CHR 0x0A]))
      else if q = [''repo'', ''.yo'', ''objects'', hashObject ''hello'']
      then Some (File ''hello'')
      else if q = [''repo'', ''.yo'', ''logs''] \<or> q = [''repo'', ''.yo'', ''objects'']
        \<or> q = [''repo'', ''.yo''] \<or> q = [''repo''] \<or> q = []
      then Some Dir
      else if q = [''repo'', ''a.txt''] then Some (File ''hello'')
      else None)"
  by (simp add: ex_defs os_defs stagingLine_def)

lemma ex_cwd: "cwd ex_env = [''repo'']"
  by (simp add: ex_env_def)

lemma ex_faults: "\<not> faults ex_env x"
  by (simp add: ex_env_def)












section \<open>Staging order\<close>

lemma staged_line_success:
  assumes "fst (yoAdd env fs file) = None"
  shows "\<exists>content. ioutil_ReadFile_name env fs file = Inr content
    \<and> staged_line env (Add file) fs = [stagingLine (hashObject content) file]
    \<and> fmlookup (snd (yoAdd env fs file)) (stagingPath (cwd env)) =
        Some (File (text_of (fmlookup fs (stagingPath (cwd env)))
                      @ stagingLine (hashObject content) file))"
proof -
  from assms have "yoAdd env fs file = (None, snd (yoAdd env fs file))"
    by (rule success_eq)
  from yoAdd_success [OF this] obtain content where
    "ioutil_ReadFile_name env fs file = Inr content"
    "fmlookup (snd (yoAdd env fs file)) (stagingPath (cwd env)) =
        Some (File (text_of (fmlookup fs (stagingPath (cwd env)))
                      @ stagingLine (hashObject content) file))"
    by auto
  with assms show ?thesis by simp
qed

lemma stage_calls_Cons [simp]:
  "stage_calls ((env, file) # calls) = (env, Add file) # stage_calls calls"
  by (simp add: stage_calls_def)

lemma stage_calls_Nil [simp]: "stage_calls [] = []"
  by (simp add: stage_calls_def)

lemma staged_run:
  assumes "\<forall>(env, file) \<in> set calls. cwd env = r"
    and "\<forall>out \<in> set (outcomes (stage_calls calls) fs). out = None"
  shows "fmlookup (run (stage_calls calls) fs) (stagingPath r) =
      (if calls = [] then fmlookup fs (stagingPath r)
       else Some (File (text_of (fmlookup fs (stagingPath r))
                         @ concat (staged (stage_calls calls) fs))))
    \<and> length (staged (stage_calls calls) fs) = length calls"
  using assms
proof (induction calls arbitrary: fs)
  case Nil
  then show ?case by simp
next
  case (Cons a calls)
  obtain env "file" where a: "a = (env, file)" by (cases a)
  let ?fs' = "snd (yoAdd env fs file)"
  from Cons.prems a have r: "cwd env = r" and ok: "fst (yoAdd env fs file) = None"
    and rest: "\<forall>(env, file) \<in> set calls. cwd env = r"
      "\<forall>out \<in> set (outcomes (stage_calls calls) ?fs'). out = None"
    by auto
  from staged_line_success [OF ok, unfolded r] obtain content where
    l: "staged_line env (Add file) fs = [stagingLine (hashObject content) file]" and
    s: "fmlookup ?fs' (stagingPath r) =
        Some (File (text_of (fmlookup fs (stagingPath r))
                      @ stagingLine (hashObject content) file))"
    by blast
  from Cons.IH [OF rest] s l a show ?case
    by simp
qed

lemma staged_nth:
  assumes "\<forall>out \<in> set (outcomes (stage_calls calls) fs). out = None"
    and "i < length calls"
  shows "\<exists>content.
      ioutil_ReadFile_name (fst (calls ! i)) (run (stage_calls (take i calls)) fs)
        (snd (calls ! i)) = Inr content
    \<and> staged (stage_calls calls) fs ! i =
        hashObject content @ '' '' @ snd (calls ! i) @ [CHR 0x0A]"
  using assms
proof (induction calls arbitrary: fs i)
  case Nil
  then show ?case by simp
next
  case (Cons a calls)
  obtain env "file" where a: "a = (env, file)" by (cases a)
  let ?fs' = "snd (yoAdd env fs file)"
  from Cons.prems a have ok: "fst (yoAdd env fs file) = None"
    and rest: "\<forall>out \<in> set (outcomes (stage_calls calls) ?fs'). out = None"
    by auto
  from staged_line_success [OF ok] obtain content where
    c: "ioutil_ReadFile_name env fs file = Inr content" and
    l: "staged_line env (Add file) fs = [stagingLine (hashObject content) file]"
    by blast
  show ?case
  proof (cases i)
    case 0
    with a c l show ?thesis by (simp add: stagingLine_def)
  next
    case (Suc j)
    with Cons.prems have "j < length calls" by simp
    from Cons.IH [OF rest this] Suc a l show ?thesis by simp
  qed
qed

lemma lines_of_concat:
  assumes "\<forall>l \<in> set ls. \<exists>x. l = x @ [CHR 0x0A] \<and> CHR 0x0A \<notin> set x"
  shows "lines_of (concat ls) = ls"
  using assms
proof (induction ls)
  case Nil
  then show ?case by simp
next
  case (Cons l ls)
  then obtain x where x: "l = x @ [CHR 0x0A]" "CHR 0x0A \<notin> set x" by auto
  have "lines_of (l @ concat ls) = lines_of l @ lines_of (concat ls)"
    by (rule lines_of_append) (simp add: x)
  with Cons x show ?case
    by (simp add: lines_of_single)
qed

text \<open>
  Claim C5, as the program has it. Take a repository without staging record and a
  sequence of \<open>n\<close> calls of \<^verbatim>\<open>yoAdd\<close> that all succeed. Then the staging record is the
  concatenation, in call order, of \<open>n\<close> entries, the \<open>i\<close>-th being the digest of the
  content read by the \<open>i\<close>-th call, a space, the path given to it and a newline. When no
  path contains a newline character, these entries are exactly the lines of the record.
\<close>

theorem staging_order:
  assumes "\<forall>(env, file) \<in> set calls. cwd env = r"
    and "fmlookup fs (stagingPath r) = None"
    and "\<forall>out \<in> set (outcomes (stage_calls calls) fs). out = None"
  shows "\<exists>lines.
      length lines = length calls
    \<and> text_of (fmlookup (run (stage_calls calls) fs) (stagingPath r)) = concat lines
    \<and> (calls \<noteq> [] \<longrightarrow>
         fmlookup (run (stage_calls calls) fs) (stagingPath r) = Some (File (concat lines)))
    \<and> (\<forall>i < length calls. \<exists>content.
          ioutil_ReadFile_name (fst (calls ! i)) (run (stage_calls (take i calls)) fs)
            (snd (calls ! i)) = Inr content
        \<and> lines ! i = hashObject content @ '' '' @ snd (calls ! i) @ [CHR 0x0A])
    \<and> ((\<forall>(env, file) \<in> set calls. CHR 0x0A \<notin> set file) \<longrightarrow>
         lines_of (concat lines) = lines)"
proof -
  let ?lines = "staged (stage_calls calls) fs"
  from staged_run [OF assms(1,3)] assms(2)
  have len: "length ?lines = length calls"
    and look: "fmlookup (run (stage_calls calls) fs) (stagingPath r) =
      (if calls = [] then None else Some (File (concat ?lines)))"
    by simp_all
  have nth: "\<forall>i < length calls. \<exists>content.
          ioutil_ReadFile_name (fst (calls ! i)) (run (stage_calls (take i calls)) fs)
            (snd (calls ! i)) = Inr content
        \<and> ?lines ! i = hashObject content @ '' '' @ snd (calls ! i) @ [CHR 0x0A]"
    using staged_nth [OF assms(3)] by blast
  have tx: "text_of (fmlookup (run (stage_calls calls) fs) (stagingPath r)) = concat ?lines"
    using look len by (cases "calls = []") simp_all
  have nl: "lines_of (concat ?lines) = ?lines"
    if free: "\<forall>(env, file) \<in> set calls. CHR 0x0A \<notin> set file"
  proof (rule lines_of_concat, rule ballI)
    fix l assume "l \<in> set ?lines"
    then obtain i where i: "i < length calls" and l: "l = ?lines ! i"
      using len by (auto simp: in_set_conv_nth)
    from nth i l obtain content where
      c: "l = hashObject content @ '' '' @ snd (calls ! i) @ [CHR 0x0A]"
      by blast
    have "calls ! i \<in> set calls" using i by simp
    with free have "CHR 0x0A \<notin> set (snd (calls ! i))"
      by (cases "calls ! i") auto
    moreover have "CHR 0x0A \<notin> set (hashObject content)"
      using set_hashObject [of content] by (auto simp: hextable_def)
    ultimately have "CHR 0x0A \<notin> set (hashObject content @ '' '' @ snd (calls ! i))"
      by simp
    with c show "\<exists>x. l = x @ [CHR 0x0A] \<and> CHR 0x0A \<notin> set x"
      by (intro exI [of _ "hashObject content @ '' '' @ snd (calls ! i)"]) simp
  qed
  from len tx look nth nl show ?thesis
    by (intro exI [of _ ?lines]) simp
qed

lemma ex_added: "snd (yoAdd ex_env ex_repo ''a.txt'') = ex_staged"
  by (simp add: ex_staged_def ex_repo_def)

lemma ex_calls_ok: "\<forall>out \<in> set (outcomes (stage_calls ex_calls) ex_repo). out = None"
proof -
  have 1: "fst (yoAdd ex_env ex_repo ''a.txt'') = None"
    by (simp add: ex_defs os_defs)
  have 2: "fst (yoAdd ex_env ex_staged ''/repo/a.txt'') = None"
    by (simp add: yoAdd_def Let_def os_defs ex_staged_lookup ex_cwd ex_faults)
  from 1 2 show ?thesis
    by (simp add: ex_calls_def ex_added)
qed

theorem staging_order_witness:
  "fmlookup ex_repo (stagingPath [''repo'']) = None
   \<and> fmlookup (run (stage_calls ex_calls) ex_repo) (stagingPath [''repo'']) =
       Some (File (hashObject ''hello'' @ '' a.txt'' @ [CHR 0x0A]
                   @ hashObject ''hello'' @ '' /repo/a.txt'' @ [CHR 0x0A]))
   \<and> lines_of (text_of (fmlookup (run (stage_calls ex_calls) ex_repo) (stagingPath [''repo'']))) =
       [hashObject ''hello'' @ '' a.txt'' @ [CHR 0x0A],
        hashObject ''hello'' @ '' /repo/a.txt'' @ [CHR 0x0A]]"
proof -
  have h1: "\<forall>(env, file) \<in> set ex_calls. cwd env = [''repo'']"
    by (simp add: ex_calls_def ex_cwd)
  have h2: "fmlookup ex_repo (stagingPath [''repo'']) = None"
    by (simp add: ex_defs os_defs)
  have free: "\<forall>(env, file) \<in> set ex_calls. CHR 0x0A \<notin> set file"
    by (simp add: ex_calls_def)
  have r0: "ioutil_ReadFile_name ex_env ex_repo ''a.txt'' = Inr ''hello''"
    by (simp add: ex_defs os_defs)
  have r1: "ioutil_ReadFile_name ex_env ex_staged ''/repo/a.txt'' = Inr ''hello''"
    by (simp add: os_defs ex_staged_lookup ex_cwd ex_faults)
  from staging_order [OF h1 h2 ex_calls_ok] obtain lines where
    len: "length lines = length ex_calls" and
    look: "ex_calls \<noteq> [] \<longrightarrow>
      fmlookup (run (stage_calls ex_calls) ex_repo) (stagingPath [''repo'']) =
        Some (File (concat lines))" and
    nth: "\<forall>i < length ex_calls. \<exists>content.
          ioutil_ReadFile_name (fst (ex_calls ! i)) (run (stage_calls (take i ex_calls)) ex_repo)
            (snd (ex_calls ! i)) = Inr content
        \<and> lines ! i = hashObject content @ '' '' @ snd (ex_calls ! i) @ [CHR 0x0A]" and
    nl: "(\<forall>(env, file) \<in> set ex_calls. CHR 0x0A \<notin> set file) \<longrightarrow>
      lines_of (concat lines) = lines"
    by blast
  have n: "length ex_calls = 2"
    by (simp add: ex_calls_def)
  have t0: "run (stage_calls (take 0 ex_calls)) ex_repo = ex_repo"
    by simp
  have t1: "run (stage_calls (take (Suc 0) ex_calls)) ex_repo = ex_staged"
    by (simp add: ex_calls_def ex_added)
  have e0: "ex_calls ! 0 = (ex_env, ''a.txt'')" and e1: "ex_calls ! Suc 0 = (ex_env, ''/repo/a.txt'')"
    by (simp_all add: ex_calls_def)
  from nth [rule_format, of 0] r0
  have l0: "lines ! 0 = hashObject ''hello'' @ '' a.txt'' @ [CHR 0x0A]"
    by (simp add: n t0 e0)
  from nth [rule_format, of 1] r1
  have l1: "lines ! 1 = hashObject ''hello'' @ '' /repo/a.txt'' @ [CHR 0x0A]"
    by (simp add: n t1 e1)
  from len n have len: "length lines = 2" by simp
  from look have look: "fmlookup (run (stage_calls ex_calls) ex_repo) (stagingPath [''repo'']) =
        Some (File (concat lines))"
    by (simp add: ex_calls_def)
  from nl free have nl: "lines_of (concat lines) = lines" by blast
  from len have "lines = [lines ! 0, lines ! 1]"
    by (cases lines; cases "tl lines") auto
  with l0 l1 have "lines = [hashObject ''hello'' @ '' a.txt'' @ [CHR 0x0A],
        hashObject ''hello'' @ '' /repo/a.txt'' @ [CHR 0x0A]]"
    by simp
  with look nl h2 show ?thesis
    by simp
qed

text \<open>
  With a newline in a path the entries are not the lines: one call on the file named
  \<^verbatim>\<open>a\<close>, newline, \<^verbatim>\<open>b\<close> leaves a staging record of two lines.
\<close>

theorem staging_order_counterexample:
  "fst (yoAdd ex_env ex_nl_repo ex_nl_name) = None
   \<and> lines_of (text_of (fmlookup (snd (yoAdd ex_env ex_nl_repo ex_nl_name))
                 (stagingPath (cwd ex_env)))) =
       [hashObject ''x'' @ '' a'' @ [CHR 0x0A], ''b'' @ [CHR 0x0A]]
   \<and> length (lines_of (text_of (fmlookup (snd (yoAdd ex_env ex_nl_repo ex_nl_name))
                 (stagingPath (cwd ex_env))))) \<noteq> 1"
proof -
  let ?h = "hashObject ''x'' @ '' a''"
  have ok: "fst (yoAdd ex_env ex_nl_repo ex_nl_name) = None"
    by (simp add: ex_defs os_defs ex_nl_repo_def ex_nl_name_def)
  have rec: "fmlookup (snd (yoAdd ex_env ex_nl_repo ex_nl_name)) (stagingPath (cwd ex_env)) =
      Some (File (hashObject ''x'' @ '' '' @ ex_nl_name @ [CHR 0x0A]))"
    by (simp add: ex_defs os_defs ex_nl_repo_def ex_nl_name_def stagingLine_def)
  have nl: "CHR 0x0A \<notin> set ?h"
    using set_hashObject [of "''x''"] by (auto simp: hextable_def)
  have eq: "hashObject ''x'' @ '' '' @ ex_nl_name @ [CHR 0x0A] =
      (?h @ [CHR 0x0A]) @ (''b'' @ [CHR 0x0A])"
    by (simp add: ex_nl_name_def)
  have 1: "lines_of ((?h @ [CHR 0x0A]) @ (''b'' @ [CHR 0x0A])) =
      lines_of (?h @ [CHR 0x0A]) @ lines_of (''b'' @ [CHR 0x0A])"
    by (rule lines_of_append) simp
  have 2: "lines_of (?h @ [CHR 0x0A]) = [?h @ [CHR 0x0A]]"
    by (rule lines_of_single [OF nl])
  have 3: "lines_of (''b'' @ [CHR 0x0A]) = [''b'' @ [CHR 0x0A]]"
    by simp
  have "lines_of (hashObject ''x'' @ '' '' @ ex_nl_name @ [CHR 0x0A]) =
      [hashObject ''x'' @ '' a'' @ [CHR 0x0A], ''b'' @ [CHR 0x0A]]"
    unfolding eq 1 2 3 by simp
  with ok rec show ?thesis
    by simp
qed

section \<open>Commit digests and time\<close>





end
